theory Spec2Isabelle
  imports Main "HOL-Library.AList"
begin

section \<open>JavaScript values and objects\<close>

text \<open>
  The values a global state is built from. An object is the list of its own enumerable
  properties in insertion order; a property is read at its first binding
  (\<^const>\<open>map_of\<close>) and written with \<^const>\<open>AList.update\<close>, which overwrites
  the binding in place or appends a new one, as a JavaScript assignment
  \<^verbatim>\<open>o[k] = v\<close> does. Numbers are integers here; strings are lists of code units.
\<close>

datatype jsval =
    Undefined
  | Null
  | Boolean bool
  | Number int
  | String string
  | Object "(string \<times> jsval) list"

datatype jstype = T_undefined | T_object | T_boolean | T_number | T_string | T_function

text \<open>The \<^verbatim>\<open>typeof\<close> operator: \<^verbatim>\<open>typeof null\<close> is \<^verbatim>\<open>"object"\<close>.\<close>

fun typeof :: "jsval \<Rightarrow> jstype" where
  "typeof Undefined = T_undefined"
| "typeof Null = T_object"
| "typeof (Boolean b) = T_boolean"
| "typeof (Number n) = T_number"
| "typeof (String s) = T_string"
| "typeof (Object kvs) = T_object"

text \<open>The decimal numeral of an index, the property name of a string's code unit.\<close>

function decimal :: "nat \<Rightarrow> string" where
  "decimal n =
     (if n < 10 then [char_of (48 + n)]
      else decimal (n div 10) @ [char_of (48 + n mod 10)])"
  by pat_completeness auto
termination
  by (relation "measure (\<lambda>n. n)") auto

text \<open>
  The own enumerable properties a spread \<^verbatim>\<open>{...v}\<close> copies: those of an object,
  the indexed code units of a string, and none for \<^verbatim>\<open>undefined\<close>,
  \<^verbatim>\<open>null\<close>, a boolean or a number.
\<close>

fun own_entries :: "jsval \<Rightarrow> (string \<times> jsval) list" where
  "own_entries (Object kvs) = kvs"
| "own_entries (String s) =
     map (\<lambda>(i, c). (decimal i, String [c])) (enumerate 0 s)"
| "own_entries v = []"

text \<open>
  \<^verbatim>\<open>Object.assign(target, source)\<close>, which is what a spread into an object literal or
  into JSX props does: every property of the source, once, in order, is assigned to the
  target.
\<close>

definition Object_assign :: "(string \<times> 'v) list \<Rightarrow> (string \<times> 'v) list \<Rightarrow> (string \<times> 'v) list" where
  "Object_assign target source =
     fold (\<lambda>(k, v) out. AList.update k v out) (AList.clearjunk source) target"

datatype error = TypeError | InvalidUpdatePayload

section \<open>connect\<close>

text \<open>
  The value a \<^verbatim>\<open>GlobalContext.Provider\<close> hands down (line 40): the snapshot and the
  update entrypoint. The entrypoint's type is a parameter of the connector, which only
  passes it on.
\<close>

record 'u context_value =
  globalState :: jsval
  setGlobalState :: 'u

text \<open>
  A prop of the wrapped component is a state value, the update entrypoint or a function
  made by the binding loop; the consumer's own props may hold any of them.
\<close>

datatype ('u, 'b) propval = Data jsval | Entry 'u | Bound 'b

record ('comp, 'u, 'b) element =
  el_type :: 'comp
  el_props :: "(string \<times> ('u, 'b) propval) list"

text \<open>
  Lines 13 to 19. A raw transmitter takes the argument list and then the entrypoint;
  the loop stores, under each name, the function that applies the raw transmitter to its
  arguments and the result to \<^verbatim>\<open>setGlobalState\<close>.
\<close>

definition mapTransmittersToProps ::
  "(string \<times> ('a list \<Rightarrow> 'u \<Rightarrow> 'r)) list \<Rightarrow> 'u \<Rightarrow> (string \<times> ('a list \<Rightarrow> 'r)) list" where
  "mapTransmittersToProps transmitters setGlobalState' =
     fold (\<lambda>(func, t) output. AList.update func (\<lambda>args. t args setGlobalState') output)
       (AList.clearjunk transmitters) []"

text \<open>Line 23: the selector is applied when one is given.\<close>

definition mappedState :: "(jsval \<Rightarrow> jsval) option \<Rightarrow> jsval \<Rightarrow> jsval" where
  "mappedState mapStateToProps gs =
     (case mapStateToProps of Some f \<Rightarrow> f gs | None \<Rightarrow> gs)"

definition data_props :: "jsval \<Rightarrow> (string \<times> ('u, 'b) propval) list" where
  "data_props v = map (\<lambda>(k, x). (k, Data x)) (own_entries v)"

definition bound_props :: "(string \<times> 'b) list \<Rightarrow> (string \<times> ('u, 'b) propval) list" where
  "bound_props bs = map (\<lambda>(k, f). (k, Bound f)) bs"

text \<open>
  The JSX of line 26 stands for a call of \<^verbatim>\<open>React.createElement\<close> with the wrapped
  component and the merged object as configuration. React is not part of the source; its
  \<^verbatim>\<open>createElement\<close> copies into the element's props every property of the
  configuration but those with a reserved name (\<^verbatim>\<open>key\<close>, \<^verbatim>\<open>ref\<close>,
  \<^verbatim>\<open>__self\<close> and \<^verbatim>\<open>__source\<close>), of which \<^verbatim>\<open>key\<close> and
  \<^verbatim>\<open>ref\<close> become the element's key and ref instead of props. The wrapped component
  is taken to declare no default props.
\<close>

definition RESERVED_PROPS :: "string list" where
  "RESERVED_PROPS = [''key'', ''ref'', ''__self'', ''__source'']"

definition createElement ::
  "'comp \<Rightarrow> (string \<times> ('u, 'b) propval) list \<Rightarrow> ('comp, 'u, 'b) element" where
  "createElement Component config =
     \<lparr>el_type = Component,
      el_props = filter (\<lambda>(propName, v). propName \<notin> set RESERVED_PROPS) config\<rparr>"

text \<open>
  Lines 12 and 20 to 31: the connected component, evaluated with its own props at a tree
  position. The context is \<open>None\<close> where no \<^verbatim>\<open>GlobalContext.Provider\<close> is above:
  \<^verbatim>\<open>React.createContext()\<close> has no default (line 4), the render callback receives
  \<^verbatim>\<open>undefined\<close>, and destructuring it in the parameter list (line 22) throws a
  TypeError. A missing transmitter map is the default \<^verbatim>\<open>{}\<close>. The attribute
  \<^verbatim>\<open>setGlobalState\<close> and the three spreads of line 26 fill the configuration in
  that order.
\<close>

definition connect ::
  "'comp \<Rightarrow> (jsval \<Rightarrow> jsval) option \<Rightarrow> (string \<times> ('a list \<Rightarrow> 'u \<Rightarrow> 'r)) list option \<Rightarrow>
   (string \<times> ('u, 'a list \<Rightarrow> 'r) propval) list \<Rightarrow> 'u context_value option \<Rightarrow>
   error + ('comp, 'u, 'a list \<Rightarrow> 'r) element" where
  "connect Component mapStateToProps transmitters props context =
     (case context of
        None \<Rightarrow> Inl TypeError
      | Some v \<Rightarrow>
          let mapped = mappedState mapStateToProps (globalState v);
              mappedTransmitters =
                mapTransmittersToProps (case transmitters of None \<Rightarrow> [] | Some ts \<Rightarrow> ts)
                  (setGlobalState v)
          in Inr (createElement Component
                   (Object_assign
                      (Object_assign
                        (Object_assign [(''setGlobalState'', Entry (setGlobalState v))]
                          (data_props mapped))
                        (bound_props mappedTransmitters))
                      props)))"

section \<open>Provider\<close>

record 'c Provider_props =
  props_globalState :: jsval
  props_children :: 'c

text \<open>The component instance: \<^verbatim>\<open>this.props\<close> and \<^verbatim>\<open>this.state\<close>.\<close>

record 'c Provider =
  props :: "'c Provider_props"
  state :: jsval

text \<open>
  Lines 34 to 37. The constructor has no check and no \<^verbatim>\<open>throw\<close>: whatever the
  \<^verbatim>\<open>globalState\<close> prop holds is stored. \<^verbatim>\<open>Provider.propTypes\<close> (lines 47 to
  50) declares the prop a required object; a declaration of prop types makes React log a
  warning in development and raises nothing.
\<close>

definition Provider_constructor :: "'c Provider_props \<Rightarrow> error + 'c Provider" where
  "Provider_constructor p = Inr \<lparr>props = p, state = props_globalState p\<rparr>"

text \<open>
  A mounted Provider: the instance together with what the host records about it, the
  snapshots committed by updates and the number of notification passes issued to the
  connected consumers.
\<close>

record 'c mounted =
  inst :: "'c Provider"
  commits :: "jsval list"
  passes :: nat

definition mount :: "'c Provider \<Rightarrow> 'c mounted" where
  "mount this = \<lparr>inst = this, commits = [], passes = 0\<rparr>"

text \<open>
  An update payload: a value, or a function of the previous state. A callback is an
  effect on the mounted Provider, run after the commit.
\<close>

datatype payload = Value jsval | Function "jsval \<Rightarrow> jsval"

fun typeof_payload :: "payload \<Rightarrow> jstype" where
  "typeof_payload (Value v) = typeof v"
| "typeof_payload (Function f) = T_function"

type_synonym 'c callback = "'c mounted \<Rightarrow> error + 'c mounted"

type_synonym 'c entrypoint = "payload \<Rightarrow> 'c callback option \<Rightarrow> 'c mounted \<Rightarrow> error + 'c mounted"

text \<open>
  Modelled from the spec: React's \<^verbatim>\<open>Component.prototype.setState\<close>, which line 40
  binds to the Provider and hands down as \<^verbatim>\<open>setGlobalState\<close>; React is not part of
  the source. Section 4.1 of the spec: if the payload is a function, invoke it with the
  current Snapshot to obtain a partial mapping; if the payload is an object, use it
  directly; otherwise fail with InvalidUpdatePayload. Shallow-merge the partial mapping
  into the current Snapshot to produce a new Snapshot, replacing it. After the commit,
  notify the connected consumers, then invoke the callback (if provided) once.
  ``Is an object'' is read as JavaScript's \<^verbatim>\<open>typeof\<close> reads it. The spec does not
  say what happens when a function payload returns something that is not an object; the
  model merges the own properties of whatever it returns.
\<close>

definition shallow_merge :: "jsval \<Rightarrow> jsval \<Rightarrow> jsval" where
  "shallow_merge snapshot partial =
     Object (Object_assign (own_entries snapshot) (own_entries partial))"

definition partial_of :: "payload \<Rightarrow> jsval \<Rightarrow> error + jsval" where
  "partial_of payload snapshot =
     (case payload of
        Function f \<Rightarrow> Inr (f snapshot)
      | Value v \<Rightarrow> if typeof v = T_object then Inr v else Inl InvalidUpdatePayload)"

definition commit :: "jsval \<Rightarrow> 'c mounted \<Rightarrow> 'c mounted" where
  "commit next m =
     m\<lparr>inst := (inst m)\<lparr>state := next\<rparr>,
       commits := commits m @ [next],
       passes := Suc (passes m)\<rparr>"

definition setState :: "'c entrypoint" where
  "setState payload callback m =
     (case partial_of payload (state (inst m)) of
        Inl e \<Rightarrow> Inl e
      | Inr partial \<Rightarrow>
          let m' = commit (shallow_merge (state (inst m)) partial) m
          in (case callback of None \<Rightarrow> Inr m' | Some k \<Rightarrow> k m'))"

text \<open>Lines 38 to 44: the context value and the children passed through.\<close>

record 'c Provider_element =
  ctx_value :: "'c entrypoint context_value"
  children :: 'c

definition render :: "'c Provider \<Rightarrow> 'c Provider_element" where
  "render this =
     \<lparr>ctx_value = \<lparr>globalState = state this, setGlobalState = setState\<rparr>,
      children = props_children (props this)\<rparr>"

text \<open>
  What a \<^verbatim>\<open>GlobalContext.Consumer\<close> receives at a tree position, given the Provider
  instances above it, nearest first: the value of the nearest one, and the default of
  \<^verbatim>\<open>React.createContext()\<close>, which is \<^verbatim>\<open>undefined\<close>, when there is none.
\<close>

fun consume :: "'c Provider list \<Rightarrow> 'c entrypoint context_value option" where
  "consume [] = None"
| "consume (this # ancestors) = Some (ctx_value (render this))"

text \<open>
  The life of a mounted Provider. When its parent renders it again with new props, React
  assigns them to \<^verbatim>\<open>this.props\<close> and calls \<^verbatim>\<open>render\<close>; the class defines no
  other lifecycle method (lines 33 to 45), so nothing else runs. The other event is a
  call of the entrypoint handed down by \<^verbatim>\<open>render\<close>.
\<close>

definition receiveProps :: "'c Provider_props \<Rightarrow> 'c Provider \<Rightarrow> 'c Provider" where
  "receiveProps p this = this\<lparr>props := p\<rparr>"

datatype 'c event = Rerender "'c Provider_props" | Update payload

fun is_Rerender :: "'c event \<Rightarrow> bool" where
  "is_Rerender (Rerender p) = True"
| "is_Rerender (Update pl) = False"

fun run :: "'c event list \<Rightarrow> 'c mounted \<Rightarrow> error + 'c mounted" where
  "run [] m = Inr m"
| "run (Rerender p # es) m = run es (m\<lparr>inst := receiveProps p (inst m)\<rparr>)"
| "run (Update pl # es) m =
     (case setGlobalState (ctx_value (render (inst m))) pl None m of
        Inl e \<Rightarrow> Inl e
      | Inr m' \<Rightarrow> run es m')"

text \<open>
  The README's first example: the global state \<^verbatim>\<open>{loggedIn: false}\<close> given to a
  Provider, mounted.
\<close>

definition README_globalState :: jsval where
  "README_globalState = Object [(''loggedIn'', Boolean False)]"

definition README_Provider :: "unit mounted" where
  "README_Provider =
     mount \<lparr>props = \<lparr>props_globalState = README_globalState, props_children = ()\<rparr>,
            state = README_globalState\<rparr>"

text \<open>
  The same Provider after a login: its \<^verbatim>\<open>globalState\<close> prop is still
  \<^verbatim>\<open>{loggedIn: false}\<close>, its state is \<^verbatim>\<open>{loggedIn: true}\<close>.
\<close>

definition loggedIn_Provider :: "unit Provider" where
  "loggedIn_Provider =
     \<lparr>props = \<lparr>props_globalState = README_globalState, props_children = ()\<rparr>,
      state = Object [(''loggedIn'', Boolean True)]\<rparr>"

text \<open>
  The README's example of a selector: a state
  \<^verbatim>\<open>{portion: {foo: "bar"}, rest: {}}\<close>, with two more properties
  \<^verbatim>\<open>flip: "state"\<close> and \<^verbatim>\<open>key: "k"\<close> in the portion, here held by a Provider
  constructed with an empty state, and the selector \<^verbatim>\<open>state => state.portion\<close>.
\<close>

definition portion_Provider :: "unit Provider" where
  "portion_Provider =
     \<lparr>props = \<lparr>props_globalState = Object [], props_children = ()\<rparr>,
      state = Object [(''portion'', Object [(''foo'', String ''bar''),
                                            (''flip'', String ''state''),
                                            (''key'', String ''k'')]),
                      (''rest'', Object [])]\<rparr>"

definition select_portion :: "jsval \<Rightarrow> jsval" where
  "select_portion st =
     (case map_of (own_entries st) ''portion'' of Some v \<Rightarrow> v | None \<Rightarrow> Undefined)"

text \<open>
  A transmitter in the manner of the README's \<^verbatim>\<open>coinflip\<close>, cut down to its first
  step: \<^verbatim>\<open>guess => setGlobalState => setGlobalState({result: "Flipping!!"})\<close>.
\<close>

definition flip :: "jsval list \<Rightarrow> unit entrypoint \<Rightarrow> unit mounted \<Rightarrow> error + unit mounted" where
  "flip args setGlobalState' =
     setGlobalState' (Value (Object [(''result'', String ''Flipping!!'')])) None"

text \<open>
  The README's function payload \<^verbatim>\<open>prevState => ({foo: prevState.foo + "bar"})\<close>,
  for a previous state whose \<^verbatim>\<open>foo\<close> is a string, and a mounted Provider constructed
  with \<^verbatim>\<open>{foo: ""}\<close> whose state has become \<^verbatim>\<open>{foo: "foo", n: 1}\<close>.
\<close>

definition foo_bar :: "jsval \<Rightarrow> jsval" where
  "foo_bar prevState =
     Object [(''foo'',
       (case map_of (own_entries prevState) ''foo'' of
          Some (String x) \<Rightarrow> String (x @ ''bar'')
        | _ \<Rightarrow> Undefined))]"

definition foo_Provider :: "unit mounted" where
  "foo_Provider =
     mount \<lparr>props = \<lparr>props_globalState = Object [(''foo'', String [])], props_children = ()\<rparr>,
            state = Object [(''foo'', String ''foo''), (''n'', Number 1)]\<rparr>"

section \<open>Properties of objects\<close>

lemma map_of_fold_update:
  "distinct (map fst xs) \<Longrightarrow>
   map_of (fold (\<lambda>(k, v) out. AList.update k v out) xs t) = map_of t ++ map_of xs"
proof (induction xs arbitrary: t)
  case Nil
  then show ?case by simp
next
  case (Cons p xs)
  obtain k v where p: "p = (k, v)" by (cases p)
  from Cons.prems p have notin: "map_of xs k = None"
    by (simp add: map_of_eq_None_iff)
  have "map_of (fold (\<lambda>(k, v) out. AList.update k v out) (p # xs) t)
          = map_of (fold (\<lambda>(k, v) out. AList.update k v out) xs (AList.update k v t))"
    by (simp add: p)
  also from Cons.prems have "\<dots> = map_of (AList.update k v t) ++ map_of xs"
    by (intro Cons.IH) simp
  also have "\<dots> = map_of t ++ map_of (p # xs)"
    using notin by (auto simp: p update_conv' map_add_def fun_eq_iff split: option.splits)
  finally show ?case .
qed

text \<open>Reading the result of an assignment: the source's properties lie over the target's.\<close>

lemma map_of_Object_assign:
  "map_of (Object_assign target source) = map_of target ++ map_of source"
  unfolding Object_assign_def
  by (simp add: map_of_fold_update map_of_clearjunk)

lemma update_fresh:
  "k \<notin> fst ` set acc \<Longrightarrow> AList.update k v acc = acc @ [(k, v)]"
  by (induction acc) auto

lemma fold_update_fresh:
  "distinct (map fst xs) \<Longrightarrow> fst ` set xs \<inter> fst ` set acc = {} \<Longrightarrow>
   fold (\<lambda>(k, v) out. AList.update k (g v) out) xs acc = acc @ map (\<lambda>(k, v). (k, g v)) xs"
proof (induction xs arbitrary: acc)
  case Nil
  then show ?case by simp
next
  case (Cons p xs)
  obtain k v where p: "p = (k, v)" by (cases p)
  from Cons.prems p have fresh: "k \<notin> fst ` set acc" by auto
  have step: "AList.update k (g v) acc = acc @ [(k, g v)]"
    using fresh by (rule update_fresh)
  from Cons.prems p have d: "distinct (map fst xs)" and
    disj: "fst ` set xs \<inter> fst ` set (acc @ [(k, g v)]) = {}"
    by auto
  show ?case
    using Cons.IH [OF d disj] by (simp add: p step)
qed

lemma typeof_not_function [simp]: "typeof v \<noteq> T_function"
  by (cases v) simp_all

section \<open>The binding of transmitters\<close>

text \<open>The loop of lines 15 to 17 leaves one entry for each name, in the order of the names.\<close>

lemma mapTransmittersToProps_eq:
  "mapTransmittersToProps ts u =
     map (\<lambda>(name, raw). (name, \<lambda>args. raw args u)) (AList.clearjunk ts)"
  unfolding mapTransmittersToProps_def
  using fold_update_fresh [of "AList.clearjunk ts" "[]" "\<lambda>raw args. raw args u"]
  by simp

text \<open>
  C3: for every transmitter map \<open>ts\<close> and every update entrypoint \<open>u\<close>, the bound map has
  exactly the names of \<open>ts\<close>, each once and in the same order, and under each name the
  function that takes the arguments, applies that name's raw transmitter to them and
  applies the result to \<open>u\<close>. The bound map is a function of \<open>ts\<close> and \<open>u\<close> alone and
  holds the raw transmitters unapplied: a raw transmitter meets its arguments only when
  the bound function is called.
\<close>

theorem mapTransmittersToProps_binds:
  "map fst (mapTransmittersToProps ts u) = map fst (AList.clearjunk ts) \<and>
   set (map fst (mapTransmittersToProps ts u)) = set (map fst ts) \<and>
   distinct (map fst (mapTransmittersToProps ts u)) \<and>
   map_of (mapTransmittersToProps ts u) name
     = map_option (\<lambda>raw. \<lambda>args. raw args u) (map_of ts name)"
proof -
  have keys: "map fst (mapTransmittersToProps ts u) = map fst (AList.clearjunk ts)"
    by (simp add: mapTransmittersToProps_eq case_prod_unfold comp_def)
  have "map_of (mapTransmittersToProps ts u) name
     = map_option (\<lambda>raw. \<lambda>args. raw args u) (map_of (AList.clearjunk ts) name)"
    unfolding mapTransmittersToProps_eq by (simp add: map_of_map)
  then have look: "map_of (mapTransmittersToProps ts u) name
     = map_option (\<lambda>raw. \<lambda>args. raw args u) (map_of ts name)"
    by (simp add: map_of_clearjunk)
  show ?thesis
    using keys look by (simp add: dom_clearjunk)
qed

section \<open>The connected component\<close>

lemma map_of_filter_reserved:
  "map_of (filter (\<lambda>(propName, v). propName \<notin> set RESERVED_PROPS) config) k
     = (if k \<in> set RESERVED_PROPS then None else map_of config k)"
  by (induction config) auto

lemma map_of_data_props:
  "map_of (data_props (Object kvs)) k = map_option Data (map_of kvs k)"
  by (simp add: data_props_def map_of_map)

lemma map_of_bound_props:
  "map_of (bound_props (mapTransmittersToProps ts u)) k
     = map_option (\<lambda>raw. Bound (\<lambda>args. raw args u)) (map_of ts k)"
proof -
  have eq: "bound_props (mapTransmittersToProps ts u)
          = map (\<lambda>(name, raw). (name, Bound (\<lambda>args. raw args u))) (AList.clearjunk ts)"
    by (simp add: bound_props_def mapTransmittersToProps_eq case_prod_unfold comp_def)
  show ?thesis
    unfolding eq by (simp add: map_of_map map_of_clearjunk)
qed

text \<open>
  The props of the rendered element, read name by name, when the selected state is an
  object: a reserved name is no prop; any other name is looked up in the consumer's own
  props, then among the transmitters, then in the selected state, and last is the
  entrypoint's name.
\<close>

lemma connect_props_lookup:
  assumes "(case sel of Some f \<Rightarrow> f (globalState v) | None \<Rightarrow> globalState v) = Object kvs"
  shows "\<exists>el. connect C sel ts own (Some v) = Inr el \<and> el_type el = C \<and>
     (\<forall>k. map_of (el_props el) k =
        (if k \<in> set RESERVED_PROPS then None
         else case map_of own k of
           Some x \<Rightarrow> Some x
         | None \<Rightarrow>
            (case map_of (case ts of None \<Rightarrow> [] | Some t \<Rightarrow> t) k of
               Some raw \<Rightarrow> Some (Bound (\<lambda>args. raw args (setGlobalState v)))
             | None \<Rightarrow>
                (case map_of kvs k of
                   Some x \<Rightarrow> Some (Data x)
                 | None \<Rightarrow>
                     if k = ''setGlobalState'' then Some (Entry (setGlobalState v))
                     else None))))"
proof -
  from assms have mapped: "mappedState sel (globalState v) = Object kvs"
    by (simp add: mappedState_def)
  let ?config =
    "Object_assign
       (Object_assign
         (Object_assign [(''setGlobalState'', Entry (setGlobalState v))]
           (data_props (Object kvs)))
         (bound_props
           (mapTransmittersToProps (case ts of None \<Rightarrow> [] | Some t \<Rightarrow> t) (setGlobalState v))))
       own"
  have c: "connect C sel ts own (Some v) = Inr (createElement C ?config)"
    by (simp add: connect_def Let_def mapped)
  have look: "map_of ?config k =
        (case map_of own k of
           Some x \<Rightarrow> Some x
         | None \<Rightarrow>
            (case map_of (case ts of None \<Rightarrow> [] | Some t \<Rightarrow> t) k of
               Some raw \<Rightarrow> Some (Bound (\<lambda>args. raw args (setGlobalState v)))
             | None \<Rightarrow>
                (case map_of kvs k of
                   Some x \<Rightarrow> Some (Data x)
                 | None \<Rightarrow>
                     if k = ''setGlobalState'' then Some (Entry (setGlobalState v))
                     else None)))" for k
    by (simp add: map_of_Object_assign map_of_data_props map_of_bound_props map_add_def
        split: option.splits)
  show ?thesis
    unfolding c
    by (simp add: createElement_def map_of_filter_reserved look)
qed

lemma connect_below_Provider:
  assumes "(case sel of Some f \<Rightarrow> f (state this) | None \<Rightarrow> state this) = Object kvs"
  shows "\<exists>el. connect C sel ts own (consume (this # ancestors)) = Inr el \<and> el_type el = C \<and>
     (\<forall>k. map_of (el_props el) k =
        (if k \<in> set RESERVED_PROPS then None
         else case map_of own k of
           Some x \<Rightarrow> Some x
         | None \<Rightarrow>
            (case map_of (case ts of None \<Rightarrow> [] | Some t \<Rightarrow> t) k of
               Some raw \<Rightarrow> Some (Bound (\<lambda>args. raw args setState))
             | None \<Rightarrow>
                (case map_of kvs k of
                   Some x \<Rightarrow> Some (Data x)
                 | None \<Rightarrow>
                     if k = ''setGlobalState'' then Some (Entry setState) else None))))"
proof -
  have g: "globalState (ctx_value (render this)) = state this"
    by (simp add: render_def)
  have e: "setGlobalState (ctx_value (render this)) = setState"
    by (simp add: render_def)
  have c: "consume (this # ancestors) = Some (ctx_value (render this))"
    by simp
  from assms
  have "(case sel of Some f \<Rightarrow> f (globalState (ctx_value (render this)))
          | None \<Rightarrow> globalState (ctx_value (render this))) = Object kvs"
    by (simp only: g)
  from connect_props_lookup [OF this, where C = C and ts = ts and own = own]
  show ?thesis
    by (simp only: c e)
qed

text \<open>
  C2: every evaluation of a connected consumer below a Provider \<open>this\<close> renders the target
  component with props built from four layers, each lying over the ones before it: the
  update entrypoint under the name \<^verbatim>\<open>setGlobalState\<close>, the properties of the selected
  state, the bound transmitters, and the consumer's own props, which therefore win every
  collision. The selected state is the selector's result on \<open>state this\<close>, the snapshot
  the Provider holds at this evaluation (or that snapshot itself without a selector);
  nothing is kept from an earlier one. A name React reserves is no prop.
\<close>

theorem connect_mergedProps:
  "(case sel of Some f \<Rightarrow> f (state this) | None \<Rightarrow> state this) = Object kvs \<Longrightarrow>
   \<exists>el. connect C sel ts own (consume (this # ancestors)) = Inr el \<and> el_type el = C \<and>
     (\<forall>k. map_of (el_props el) k =
        (if k \<in> set RESERVED_PROPS then None
         else case map_of own k of
           Some x \<Rightarrow> Some x
         | None \<Rightarrow>
            (case map_of (case ts of None \<Rightarrow> [] | Some t \<Rightarrow> t) k of
               Some raw \<Rightarrow> Some (Bound (\<lambda>args. raw args setState))
             | None \<Rightarrow>
                (case map_of kvs k of
                   Some x \<Rightarrow> Some (Data x)
                 | None \<Rightarrow>
                     if k = ''setGlobalState'' then Some (Entry setState) else None))))"
  by (rule connect_below_Provider)

theorem connect_mergedProps_witness:
  "select_portion (state portion_Provider)
     = Object [(''foo'', String ''bar''), (''flip'', String ''state''), (''key'', String ''k'')] \<and>
   (\<exists>el. connect ''Game'' (Some select_portion) (Some [(''flip'', flip), (''title'', flip)])
            [(''title'', Data (String ''own''))] (consume [portion_Provider]) = Inr el \<and>
      el_type el = ''Game'' \<and>
      map_of (el_props el) ''foo'' = Some (Data (String ''bar'')) \<and>
      map_of (el_props el) ''flip'' = Some (Bound (\<lambda>args. flip args setState)) \<and>
      map_of (el_props el) ''title'' = Some (Data (String ''own'')) \<and>
      map_of (el_props el) ''setGlobalState'' = Some (Entry setState) \<and>
      map_of (el_props el) ''key'' = None \<and>
      map_of (el_props el) ''rest'' = None \<and>
      map_of (el_props el) ''portion'' = None)"
proof -
  have h: "(case Some select_portion of Some f \<Rightarrow> f (state portion_Provider)
             | None \<Rightarrow> state portion_Provider)
           = Object [(''foo'', String ''bar''), (''flip'', String ''state''), (''key'', String ''k'')]"
    by (simp add: select_portion_def portion_Provider_def)
  from connect_mergedProps [OF h, where C = "''Game''"
      and ts = "Some [(''flip'', flip), (''title'', flip)]"
      and own = "[(''title'', Data (String ''own''))]" and ancestors = "[]"]
  obtain el where el:
    "connect ''Game'' (Some select_portion) (Some [(''flip'', flip), (''title'', flip)])
       [(''title'', Data (String ''own''))] (consume [portion_Provider]) = Inr el"
    "el_type el = ''Game''"
    "\<And>k. map_of (el_props el) k =
        (if k \<in> set RESERVED_PROPS then None
         else case map_of [(''title'', Data (String ''own''))] k of
           Some x \<Rightarrow> Some x
         | None \<Rightarrow>
            (case map_of (case Some [(''flip'', flip), (''title'', flip)] of
                            None \<Rightarrow> [] | Some t \<Rightarrow> t) k of
               Some raw \<Rightarrow> Some (Bound (\<lambda>args. raw args setState))
             | None \<Rightarrow>
                (case map_of [(''foo'', String ''bar''), (''flip'', String ''state''), (''key'', String ''k'')] k of
                   Some x \<Rightarrow> Some (Data x)
                 | None \<Rightarrow>
                     if k = ''setGlobalState'' then Some (Entry setState) else None)))"
    by blast
  have "map_of (el_props el) ''foo'' = Some (Data (String ''bar''))"
    "map_of (el_props el) ''flip'' = Some (Bound (\<lambda>args. flip args setState))"
    "map_of (el_props el) ''title'' = Some (Data (String ''own''))"
    "map_of (el_props el) ''setGlobalState'' = Some (Entry setState)"
    "map_of (el_props el) ''key'' = None"
    "map_of (el_props el) ''rest'' = None"
    "map_of (el_props el) ''portion'' = None"
    by (simp_all add: el(3) RESERVED_PROPS_def)
  with el(1,2) h show ?thesis by auto
qed

text \<open>
  C8: connect without a selector is connect with the identity as selector, at every tree
  position; and below a Provider \<open>this\<close> holding an object, the state layer of the props
  is the whole current snapshot \<open>state this\<close>: every property of it that has no reserved
  name and is not overridden by a transmitter or an own prop is a prop, with its value.
\<close>

theorem connect_default_selector:
  "state this = Object kvs \<Longrightarrow>
   connect C None ts own ctx = connect C (Some (\<lambda>snapshot. snapshot)) ts own ctx \<and>
   (\<exists>el. connect C None ts own (consume (this # ancestors)) = Inr el \<and> el_type el = C \<and>
     (\<forall>k. map_of (el_props el) k =
        (if k \<in> set RESERVED_PROPS then None
         else case map_of own k of
           Some x \<Rightarrow> Some x
         | None \<Rightarrow>
            (case map_of (case ts of None \<Rightarrow> [] | Some t \<Rightarrow> t) k of
               Some raw \<Rightarrow> Some (Bound (\<lambda>args. raw args setState))
             | None \<Rightarrow>
                (case map_of kvs k of
                   Some x \<Rightarrow> Some (Data x)
                 | None \<Rightarrow>
                     if k = ''setGlobalState'' then Some (Entry setState) else None)))))"
proof -
  assume st: "state this = Object kvs"
  have same: "connect C None ts own ctx = connect C (Some (\<lambda>snapshot. snapshot)) ts own ctx"
    by (cases ctx) (simp_all add: connect_def mappedState_def)
  from st
  have "(case None of Some f \<Rightarrow> f (state this) | None \<Rightarrow> state this) = Object kvs"
    by simp
  then
  have "\<exists>el. connect C None ts own (consume (this # ancestors)) = Inr el \<and> el_type el = C \<and>
     (\<forall>k. map_of (el_props el) k =
        (if k \<in> set RESERVED_PROPS then None
         else case map_of own k of
           Some x \<Rightarrow> Some x
         | None \<Rightarrow>
            (case map_of (case ts of None \<Rightarrow> [] | Some t \<Rightarrow> t) k of
               Some raw \<Rightarrow> Some (Bound (\<lambda>args. raw args setState))
             | None \<Rightarrow>
                (case map_of kvs k of
                   Some x \<Rightarrow> Some (Data x)
                 | None \<Rightarrow>
                     if k = ''setGlobalState'' then Some (Entry setState) else None))))"
    by (rule connect_below_Provider)
  with same show ?thesis by blast
qed

theorem connect_default_selector_witness:
  "state loggedIn_Provider = Object [(''loggedIn'', Boolean True)] \<and>
   (\<exists>el. connect ''HomeScreen'' None (Some [(''flip'', flip)]) []
            (consume [loggedIn_Provider]) = Inr el \<and>
      el_type el = ''HomeScreen'' \<and>
      map_of (el_props el) ''loggedIn'' = Some (Data (Boolean True)) \<and>
      map_of (el_props el) ''setGlobalState'' = Some (Entry setState) \<and>
      map_of (el_props el) ''other'' = None)"
proof -
  have h: "state loggedIn_Provider = Object [(''loggedIn'', Boolean True)]"
    by (simp add: loggedIn_Provider_def)
  from connect_default_selector [OF h, where C = "''HomeScreen''"
      and ts = "Some [(''flip'', flip)]" and own = "[]" and ctx = None and ancestors = "[]"]
  obtain el where el:
    "connect ''HomeScreen'' None (Some [(''flip'', flip)]) []
       (consume [loggedIn_Provider]) = Inr el"
    "el_type el = ''HomeScreen''"
    "\<And>k. map_of (el_props el) k =
        (if k \<in> set RESERVED_PROPS then None
         else case map_of ([] :: (string \<times> (unit entrypoint, jsval list \<Rightarrow> unit mounted \<Rightarrow> error + unit mounted) propval) list) k of
           Some x \<Rightarrow> Some x
         | None \<Rightarrow>
            (case map_of (case Some [(''flip'', flip)] of None \<Rightarrow> [] | Some t \<Rightarrow> t) k of
               Some raw \<Rightarrow> Some (Bound (\<lambda>args. raw args setState))
             | None \<Rightarrow>
                (case map_of [(''loggedIn'', Boolean True)] k of
                   Some x \<Rightarrow> Some (Data x)
                 | None \<Rightarrow>
                     if k = ''setGlobalState'' then Some (Entry setState) else None)))"
    by blast
  have "map_of (el_props el) ''loggedIn'' = Some (Data (Boolean True))"
    "map_of (el_props el) ''setGlobalState'' = Some (Entry setState)"
    "map_of (el_props el) ''other'' = None"
    by (simp_all add: el(3) RESERVED_PROPS_def)
  with el(1,2) h show ?thesis by auto
qed

text \<open>
  C5: evaluating a connected consumer at a position with no Provider above it fails. The
  error is the TypeError that destructuring the context's default \<^verbatim>\<open>undefined\<close>
  raises on line 22; it is the failure the spec names MissingProviderError.
\<close>

theorem connect_without_Provider:
  "connect C sel ts own (consume []) = Inl TypeError"
  by (simp add: connect_def)

section \<open>The Provider\<close>

text \<open>
  C4, as the claim states it, fails: constructed with \<^verbatim>\<open>undefined\<close> as global
  state, which is not an object, the Provider does not fail; it holds \<^verbatim>\<open>undefined\<close>
  as its state.
\<close>

theorem Provider_constructor_undefined:
  "typeof Undefined \<noteq> T_object \<and>
   Provider_constructor \<lparr>props_globalState = Undefined, props_children = ()\<rparr>
     = Inr \<lparr>props = \<lparr>props_globalState = Undefined, props_children = ()\<rparr>,
            state = Undefined\<rparr>"
  by (simp add: Provider_constructor_def)

text \<open>
  C4, amended: constructing the Provider never fails. Whatever the \<^verbatim>\<open>globalState\<close>
  prop holds becomes the first snapshot, the one the first render hands down; a non-null
  object in particular.
\<close>

theorem Provider_constructor_stores:
  "\<exists>this. Provider_constructor p = Inr this \<and> state this = props_globalState p \<and>
      globalState (ctx_value (render this)) = props_globalState p"
  by (simp add: Provider_constructor_def render_def)

lemma run_rerenders:
  "list_all is_Rerender es \<Longrightarrow> \<exists>m'. run es m = Inr m' \<and> state (inst m') = state (inst m)"
proof (induction es arbitrary: m)
  case Nil
  then show ?case by simp
next
  case (Cons e es)
  then obtain p where e: "e = Rerender p" by (cases e) auto
  from Cons.prems have "list_all is_Rerender es" by simp
  from Cons.IH [OF this, of "m\<lparr>inst := receiveProps p (inst m)\<rparr>"]
  show ?case by (simp add: e receiveProps_def)
qed

text \<open>
  C10: the Provider reads its \<^verbatim>\<open>globalState\<close> prop once, in the constructor. Through
  any sequence of later renders with other props, and no call of the entrypoint, the
  snapshot it hands down stays the one given at construction; so the snapshot changes
  through \<^verbatim>\<open>setGlobalState\<close> only.
\<close>

theorem globalState_prop_captured_once:
  "list_all is_Rerender es \<Longrightarrow>
   \<exists>this m'. Provider_constructor p = Inr this \<and> run es (mount this) = Inr m' \<and>
     globalState (ctx_value (render (inst m'))) = props_globalState p"
proof -
  assume "list_all is_Rerender es"
  from run_rerenders [OF this, of "mount \<lparr>props = p, state = props_globalState p\<rparr>"]
  show ?thesis
    by (auto simp: Provider_constructor_def render_def mount_def)
qed

theorem globalState_prop_captured_once_witness:
  "list_all is_Rerender
     [Rerender \<lparr>props_globalState = Object [(''loggedIn'', Boolean True)], props_children = ()\<rparr>] \<and>
   (\<exists>this m'.
      Provider_constructor \<lparr>props_globalState = README_globalState, props_children = ()\<rparr>
        = Inr this \<and>
      run [Rerender \<lparr>props_globalState = Object [(''loggedIn'', Boolean True)],
                     props_children = ()\<rparr>] (mount this) = Inr m' \<and>
      globalState (ctx_value (render (inst m'))) = Object [(''loggedIn'', Boolean False)])"
  using globalState_prop_captured_once
    [of "[Rerender \<lparr>props_globalState = Object [(''loggedIn'', Boolean True)],
                    props_children = ()\<rparr>]"
      "\<lparr>props_globalState = README_globalState, props_children = ()\<rparr>"]
  by (simp add: README_globalState_def)

section \<open>Updates through the entrypoint\<close>

text \<open>Line 40: the entrypoint handed down is the Provider's \<^verbatim>\<open>setState\<close>, unwrapped.\<close>

lemma entrypoint_is_setState: "setGlobalState (ctx_value (render this)) = setState"
  by (simp add: render_def)

lemma setState_object:
  "setState (Value (Object P)) None m = Inr (commit (shallow_merge (state (inst m)) (Object P)) m)"
  by (simp add: setState_def partial_of_def)

text \<open>
  C1: for every snapshot \<open>S\<close> and every partial object \<open>P\<close>, calling the entrypoint with
  \<open>P\<close> succeeds and makes the current snapshot an object that reads as \<open>S\<close> with \<open>P\<close> laid
  over it: every key of \<open>P\<close> has the value \<open>P\<close> gives it, every other key the value it has
  in \<open>S\<close>.
\<close>

theorem setGlobalState_object_merges:
  "state (inst m) = Object S \<Longrightarrow>
   \<exists>m' S'. setGlobalState (ctx_value (render (inst m))) (Value (Object P)) None m = Inr m' \<and>
        globalState (ctx_value (render (inst m'))) = Object S' \<and>
        map_of S' = map_of S ++ map_of P"
proof -
  assume S: "state (inst m) = Object S"
  let ?m' = "commit (Object (Object_assign S P)) m"
  have "setGlobalState (ctx_value (render (inst m))) (Value (Object P)) None m = Inr ?m'"
    by (simp add: entrypoint_is_setState setState_object shallow_merge_def S)
  moreover have "globalState (ctx_value (render (inst ?m'))) = Object (Object_assign S P)"
    by (simp add: render_def commit_def)
  moreover have "map_of (Object_assign S P) = map_of S ++ map_of P"
    by (rule map_of_Object_assign)
  ultimately show ?thesis by blast
qed

theorem setGlobalState_object_merges_witness:
  "state (inst README_Provider) = Object [(''loggedIn'', Boolean False)] \<and>
   (\<exists>m' S'. setGlobalState (ctx_value (render (inst README_Provider)))
               (Value (Object [(''loggedIn'', Boolean True)])) None README_Provider = Inr m' \<and>
        globalState (ctx_value (render (inst m'))) = Object S' \<and>
        map_of S' ''loggedIn'' = Some (Boolean True))"
proof -
  have h: "state (inst README_Provider) = Object [(''loggedIn'', Boolean False)]"
    by (simp add: README_Provider_def README_globalState_def mount_def)
  from setGlobalState_object_merges [OF h, of "[(''loggedIn'', Boolean True)]"]
  show ?thesis using h by auto
qed

text \<open>
  C6: a payload that is neither an object nor a function makes the entrypoint fail with
  InvalidUpdatePayload, whatever the callback; an object or a function payload is
  accepted and the call returns.
\<close>

theorem setGlobalState_payload_check:
  "(typeof_payload pl \<noteq> T_object \<and> typeof_payload pl \<noteq> T_function \<longrightarrow>
      setGlobalState (ctx_value (render (inst m))) pl cb m = Inl InvalidUpdatePayload) \<and>
   (typeof_payload pl = T_object \<or> typeof_payload pl = T_function \<longrightarrow>
      (\<exists>m'. setGlobalState (ctx_value (render (inst m))) pl None m = Inr m'))"
  by (cases pl) (auto simp: entrypoint_is_setState setState_def partial_of_def)

theorem setGlobalState_payload_check_witness:
  "typeof_payload (Value (Number 3)) \<noteq> T_object \<and>
   typeof_payload (Value (Number 3)) \<noteq> T_function \<and>
   setGlobalState (ctx_value (render (inst README_Provider))) (Value (Number 3)) None
       README_Provider
     = Inl InvalidUpdatePayload \<and>
   typeof_payload (Function (\<lambda>prev. Object [(''loggedIn'', Boolean True)])) = T_function \<and>
   (\<exists>m'. setGlobalState (ctx_value (render (inst README_Provider)))
            (Function (\<lambda>prev. Object [(''loggedIn'', Boolean True)])) None README_Provider
          = Inr m')"
  using setGlobalState_payload_check [of "Value (Number 3)" README_Provider None]
    setGlobalState_payload_check
      [of "Function (\<lambda>prev. Object [(''loggedIn'', Boolean True)])" README_Provider None]
  by simp

text \<open>
  C7: a function payload \<open>f\<close> is applied to the snapshot \<open>S\<close> the Provider holds when the
  entrypoint is called; when it returns the partial object \<open>P\<close>, the call returns and the
  new snapshot reads as \<open>S\<close> with \<open>P\<close> laid over it, and the call is, with any callback,
  the call that has the object \<open>P\<close> itself as payload.
\<close>

theorem setGlobalState_function_payload:
  "state (inst m) = Object S \<Longrightarrow> f (Object S) = Object P \<Longrightarrow>
   (\<exists>m' S'. setGlobalState (ctx_value (render (inst m))) (Function f) None m = Inr m' \<and>
        globalState (ctx_value (render (inst m'))) = Object S' \<and>
        map_of S' = map_of S ++ map_of P) \<and>
   setGlobalState (ctx_value (render (inst m))) (Function f) cb m
     = setGlobalState (ctx_value (render (inst m))) (Value (Object P)) cb m"
proof -
  assume S: "state (inst m) = Object S" and P: "f (Object S) = Object P"
  let ?m' = "commit (Object (Object_assign S P)) m"
  have "setGlobalState (ctx_value (render (inst m))) (Function f) None m = Inr ?m'"
    by (simp add: entrypoint_is_setState setState_def partial_of_def shallow_merge_def S P)
  moreover have "globalState (ctx_value (render (inst ?m'))) = Object (Object_assign S P)"
    by (simp add: render_def commit_def)
  moreover have "map_of (Object_assign S P) = map_of S ++ map_of P"
    by (rule map_of_Object_assign)
  moreover have "setGlobalState (ctx_value (render (inst m))) (Function f) cb m
     = setGlobalState (ctx_value (render (inst m))) (Value (Object P)) cb m"
    by (simp add: entrypoint_is_setState setState_def partial_of_def S P)
  ultimately show ?thesis by blast
qed

theorem setGlobalState_function_payload_witness:
  "state (inst foo_Provider) = Object [(''foo'', String ''foo''), (''n'', Number 1)] \<and>
   foo_bar (Object [(''foo'', String ''foo''), (''n'', Number 1)])
     = Object [(''foo'', String ''foobar'')] \<and>
   (\<exists>m' S'. setGlobalState (ctx_value (render (inst foo_Provider))) (Function foo_bar) None
               foo_Provider = Inr m' \<and>
        globalState (ctx_value (render (inst m'))) = Object S' \<and>
        map_of S' ''foo'' = Some (String ''foobar'') \<and>
        map_of S' ''n'' = Some (Number 1)) \<and>
   setGlobalState (ctx_value (render (inst foo_Provider))) (Function foo_bar) None foo_Provider
     = setGlobalState (ctx_value (render (inst foo_Provider)))
         (Value (Object [(''foo'', String ''foobar'')])) None foo_Provider"
proof -
  have h1: "state (inst foo_Provider) = Object [(''foo'', String ''foo''), (''n'', Number 1)]"
    by (simp add: foo_Provider_def mount_def)
  have h2: "foo_bar (Object [(''foo'', String ''foo''), (''n'', Number 1)])
     = Object [(''foo'', String ''foobar'')]"
    by (simp add: foo_bar_def)
  note step = setGlobalState_function_payload [where f = foo_bar and cb = None, OF h1 h2]
  from step obtain m' S' where r:
    "setGlobalState (ctx_value (render (inst foo_Provider))) (Function foo_bar) None
       foo_Provider = Inr m'"
    "globalState (ctx_value (render (inst m'))) = Object S'"
    "map_of S' = map_of [(''foo'', String ''foo''), (''n'', Number 1)]
                 ++ map_of [(''foo'', String ''foobar'')]"
    by blast
  have "map_of S' ''foo'' = Some (String ''foobar'')" "map_of S' ''n'' = Some (Number 1)"
    by (simp_all add: r(3))
  with r(1,2) have
    "\<exists>m' S'. setGlobalState (ctx_value (render (inst foo_Provider))) (Function foo_bar) None
               foo_Provider = Inr m' \<and>
        globalState (ctx_value (render (inst m'))) = Object S' \<and>
        map_of S' ''foo'' = Some (String ''foobar'') \<and>
        map_of S' ''n'' = Some (Number 1)"
    by blast
  with step h1 h2 show ?thesis by blast
qed




end
